theory Spec2Isabelle
  imports Main "HOL-Library.List_Lexorder"
begin

section \<open>Registry search and tag resolution (tools/registry\_search.py)\<close>

text \<open>
  A shallow embedding of \<^verbatim>\<open>RegistrySearcher\<close>. A Python \<^verbatim>\<open>str\<close> is a
  \<^typ>\<open>string\<close> whose characters are read as the code points U+0000 to U+00FF; code
  points beyond U+00FF are outside the model. Python's unbounded \<^verbatim>\<open>int\<close> is
  \<^typ>\<open>int\<close>.
\<close>

subsection \<open>Characters and the string methods used by the source\<close>

definition code :: "char \<Rightarrow> nat" where
  "code c = of_char c"

text \<open>\<^verbatim>\<open>\d\<close> of a str pattern: the decimal digits (category Nd), below U+0100 only 0 to 9.\<close>

definition is_digit :: "char \<Rightarrow> bool" where
  "is_digit c = (48 \<le> code c \<and> code c \<le> 57)"

text \<open>
  \<^verbatim>\<open>\w\<close> of a str pattern: the alphanumeric code points (\<^verbatim>\<open>str.isalnum\<close>) and the
  underscore. Below U+0100 these are the ASCII letters and digits, the underscore, the
  Latin-1 letters, and the superscript digits and fractions.
\<close>

definition is_word :: "char \<Rightarrow> bool" where
  "is_word c =
     ((48 \<le> code c \<and> code c \<le> 57) \<or> (65 \<le> code c \<and> code c \<le> 90) \<or> code c = 95
      \<or> (97 \<le> code c \<and> code c \<le> 122)
      \<or> code c \<in> {170, 178, 179, 181, 185, 186, 188, 189, 190}
      \<or> (192 \<le> code c \<and> code c \<le> 214) \<or> (216 \<le> code c \<and> code c \<le> 246)
      \<or> (248 \<le> code c \<and> code c \<le> 255))"

text \<open>\<^verbatim>\<open>str.lower\<close>: below U+0100 the upper-case letters are A to Z and U+00C0 to U+00DE
  without the multiplication sign U+00D7; each maps 32 code points up.\<close>

definition lower_chr :: "char \<Rightarrow> char" where
  "lower_chr c =
     (if (65 \<le> code c \<and> code c \<le> 90) \<or> (192 \<le> code c \<and> code c \<le> 222 \<and> code c \<noteq> 215)
      then char_of (code c + 32) else c)"

definition py_lower :: "string \<Rightarrow> string" where
  "py_lower s = map lower_chr s"

text \<open>\<^verbatim>\<open>str.lstrip(chars)\<close> with a one-character argument.\<close>

definition lstrip :: "char \<Rightarrow> string \<Rightarrow> string" where
  "lstrip c s = dropWhile (\<lambda>x. x = c) s"

subsection \<open>\<^verbatim>\<open>int(str)\<close>\<close>

text \<open>
  \<^verbatim>\<open>int(p)\<close> on a string: surrounding whitespace is dropped, one sign is allowed, and the
  rest is one or more decimal digits with single underscores allowed between digits.
  Anything else raises \<^verbatim>\<open>ValueError\<close>, which is \<open>None\<close> here.
\<close>

definition int_space :: "char \<Rightarrow> bool" where
  "int_space c = (code c \<in> {9, 10, 11, 12, 13, 32, 133, 160})"

definition digit_val :: "char \<Rightarrow> int" where
  "digit_val c = int (code c) - 48"

fun parse_digits :: "int \<Rightarrow> string \<Rightarrow> int option" where
  "parse_digits acc [] = Some acc"
| "parse_digits acc (c # cs) =
     (if is_digit c then parse_digits (10 * acc + digit_val c) cs
      else if c = CHR ''_'' \<and> cs \<noteq> [] \<and> is_digit (hd cs) then parse_digits acc cs
      else None)"

definition py_nat :: "string \<Rightarrow> int option" where
  "py_nat s = (case s of [] \<Rightarrow> None
               | c # cs \<Rightarrow> if is_digit c then parse_digits (digit_val c) cs else None)"

definition py_int :: "string \<Rightarrow> int option" where
  "py_int s =
     (let t = rev (dropWhile int_space (rev (dropWhile int_space s)))
      in case t of
           [] \<Rightarrow> None
         | c # cs \<Rightarrow>
             if c = CHR ''+'' then py_nat cs
             else if c = CHR ''-'' then map_option uminus (py_nat cs)
             else py_nat t)"

subsection \<open>Regular expressions\<close>

text \<open>
  The two patterns of the source use literals, \<^verbatim>\<open>\d\<close>, \<^verbatim>\<open>\w\<close>, \<^verbatim>\<open>?\<close>, \<^verbatim>\<open>+\<close>,
  grouping and the anchors. Matching is by derivatives.
\<close>

datatype cclass = Lit char | Digit | Word

fun cmatch :: "cclass \<Rightarrow> char \<Rightarrow> bool" where
  "cmatch (Lit a) c = (c = a)"
| "cmatch Digit c = is_digit c"
| "cmatch Word c = is_word c"

datatype rexp = Zero | Eps | Atom cclass | Seq rexp rexp | Alt rexp rexp | Star rexp

definition Opt :: "rexp \<Rightarrow> rexp" where
  "Opt r = Alt r Eps"

definition Plus :: "rexp \<Rightarrow> rexp" where
  "Plus r = Seq r (Star r)"

fun nullable :: "rexp \<Rightarrow> bool" where
  "nullable Zero = False"
| "nullable Eps = True"
| "nullable (Atom a) = False"
| "nullable (Seq r s) = (nullable r \<and> nullable s)"
| "nullable (Alt r s) = (nullable r \<or> nullable s)"
| "nullable (Star r) = True"

fun seq :: "rexp \<Rightarrow> rexp \<Rightarrow> rexp" where
  "seq Zero s = Zero"
| "seq Eps s = s"
| "seq r s = Seq r s"

fun alt :: "rexp \<Rightarrow> rexp \<Rightarrow> rexp" where
  "alt Zero s = s"
| "alt r Zero = r"
| "alt r s = Alt r s"

fun deriv :: "char \<Rightarrow> rexp \<Rightarrow> rexp" where
  "deriv c Zero = Zero"
| "deriv c Eps = Zero"
| "deriv c (Atom a) = (if cmatch a c then Eps else Zero)"
| "deriv c (Seq r s) =
     (if nullable r then alt (seq (deriv c r) s) (deriv c s) else seq (deriv c r) s)"
| "deriv c (Alt r s) = alt (deriv c r) (deriv c s)"
| "deriv c (Star r) = seq (deriv c r) (Star r)"

fun matches :: "rexp \<Rightarrow> string \<Rightarrow> bool" where
  "matches r [] = nullable r"
| "matches r (c # cs) = matches (deriv c r) cs"

text \<open>
  \<^verbatim>\<open>re.compile('^' + r + '$').match(s)\<close>: the whole of \<open>s\<close> matches \<open>r\<close>, or \<open>s\<close> ends
  in one newline and the part before it matches (\<^verbatim>\<open>$\<close> also matches just before a
  final newline).
\<close>

definition anchored_match :: "rexp \<Rightarrow> string \<Rightarrow> bool" where
  "anchored_match r s =
     (matches r s \<or> (case rev s of [] \<Rightarrow> False
                      | c # p \<Rightarrow> c = CHR 0x0A \<and> matches r (rev p)))"

text \<open>\<^verbatim>\<open>re.split(r'[-.]', t)\<close>: \<open>k\<close> separators give \<open>k + 1\<close> pieces, empty ones included.\<close>

fun re_split :: "(char \<Rightarrow> bool) \<Rightarrow> string \<Rightarrow> string list" where
  "re_split P [] = [[]]"
| "re_split P (c # cs) =
     (if P c then [] # re_split P cs
      else (c # hd (re_split P cs)) # tl (re_split P cs))"

subsection \<open>\<^verbatim>\<open>list.sort(key=..., reverse=True)\<close>\<close>

text \<open>
  Python's sort is stable, and with \<^verbatim>\<open>reverse=True\<close> it stays stable: the list is
  reversed, sorted ascending and stably, and reversed again. Keys are lists of integers,
  compared lexicographically.
\<close>

definition sort_reverse :: "('a \<Rightarrow> 'k::linorder) \<Rightarrow> 'a list \<Rightarrow> 'a list" where
  "sort_reverse f xs = rev (sort_key f (rev xs))"

subsection \<open>\<^verbatim>\<open>RegistrySearcher.get_best_tag\<close>\<close>

definition exclude :: "string set" where
  "exclude = {''latest'', ''edge'', ''nightly'', ''dev'', ''develop'', ''master'',
              ''main'', ''unstable'', ''beta'', ''alpha'', ''rc'', ''test'', ''testing''}"

text \<open>\<^verbatim>\<open>^v?\d+(\.\d+)?(\.\d+)?(-[\w]+)?$\<close>\<close>

definition semver_pattern :: rexp where
  "semver_pattern =
     Seq (Opt (Atom (Lit CHR ''v'')))
    (Seq (Plus (Atom Digit))
    (Seq (Opt (Seq (Atom (Lit CHR ''.'')) (Plus (Atom Digit))))
    (Seq (Opt (Seq (Atom (Lit CHR ''.'')) (Plus (Atom Digit))))
         (Opt (Seq (Atom (Lit CHR ''-'')) (Plus (Atom Word)))))))"

definition semver_match :: "string \<Rightarrow> bool" where
  "semver_match t = anchored_match semver_pattern t"

definition valid_tags :: "string list \<Rightarrow> string list" where
  "valid_tags tags = filter (\<lambda>t. py_lower t \<notin> exclude \<and> semver_match t) tags"

definition version_key :: "string \<Rightarrow> int list" where
  "version_key tag =
     (let t = lstrip CHR ''v'' tag;
          parts = re_split (\<lambda>c. c = CHR ''-'' \<or> c = CHR ''.'') t;
          result = map (\<lambda>p. case py_int p of Some n \<Rightarrow> n | None \<Rightarrow> 0) (take 4 parts)
      in result @ replicate (4 - length result) 0)"

text \<open>
  The body of \<^verbatim>\<open>get_best_tag\<close> after \<^verbatim>\<open>tags = self.get_tags(image)\<close>: the argument is
  the fetched tag list. \<^verbatim>\<open>valid_tags[0]\<close> is read only when \<^verbatim>\<open>valid_tags\<close> is not
  empty, and sorting keeps the length.
\<close>

definition get_best_tag :: "string list \<Rightarrow> string" where
  "get_best_tag tags =
     (if tags = [] then ''latest''
      else if valid_tags tags = []
        then (case tags of t # ts \<Rightarrow> t | [] \<Rightarrow> ''latest'')
        else hd (sort_reverse version_key (valid_tags tags)))"

subsection \<open>Python values and exceptions\<close>

text \<open>
  The values that \<^verbatim>\<open>json.load\<close> returns and \<^verbatim>\<open>json.dump\<close> accepts; \<open>JNull\<close> is
  \<^verbatim>\<open>None\<close>. A dict is the list of its items, looked up from the front. Floats are
  left out. The exceptions are the classes the modelled code can raise.
\<close>

datatype json =
    JNull
  | JBool bool
  | JInt int
  | JStr string
  | JList "json list"
  | JDict "(string \<times> json) list"

datatype py_error =
    JSONDecodeError
  | KeyError
  | ValueError
  | TypeError
  | AttributeError
  | OSError
  | FileNotFoundError
  | NotADirectoryError

text \<open>Sequencing of steps that can raise: the first exception ends the computation.\<close>

fun then_do :: "py_error + 'a \<Rightarrow> ('a \<Rightarrow> py_error + 'b) \<Rightarrow> py_error + 'b" where
  "then_do (Inl e) f = Inl e"
| "then_do (Inr x) f = f x"

text \<open>Truth value testing, as in \<^verbatim>\<open>if cached:\<close> and \<^verbatim>\<open>not data\<close>.\<close>

fun truthy :: "json \<Rightarrow> bool" where
  "truthy JNull = False"
| "truthy (JBool b) = b"
| "truthy (JInt n) = (n \<noteq> 0)"
| "truthy (JStr s) = (s \<noteq> [])"
| "truthy (JList xs) = (xs \<noteq> [])"
| "truthy (JDict d) = (d \<noteq> [])"

text \<open>\<^verbatim>\<open>x.get(k, default)\<close>: only a dict has the method.\<close>

fun dict_get :: "json \<Rightarrow> string \<Rightarrow> json \<Rightarrow> py_error + json" where
  "dict_get (JDict d) k dflt = Inr (case map_of d k of Some v \<Rightarrow> v | None \<Rightarrow> dflt)"
| "dict_get x k dflt = Inl AttributeError"

text \<open>\<^verbatim>\<open>'results' in x\<close>: a key of a dict, an element of a list, a substring of a str;
  the other values are not containers.\<close>

fun starts_with :: "string \<Rightarrow> string \<Rightarrow> bool" where
  "starts_with [] s = True"
| "starts_with (p # ps) [] = False"
| "starts_with (p # ps) (c # cs) = (p = c \<and> starts_with ps cs)"

fun substring :: "string \<Rightarrow> string \<Rightarrow> bool" where
  "substring p [] = (p = [])"
| "substring p (c # cs) = (starts_with p (c # cs) \<or> substring p cs)"

fun py_contains :: "string \<Rightarrow> json \<Rightarrow> py_error + bool" where
  "py_contains k (JDict d) = Inr (k \<in> set (map fst d))"
| "py_contains k (JList xs) = Inr (JStr k \<in> set xs)"
| "py_contains k (JStr s) = Inr (substring k s)"
| "py_contains k x = Inl TypeError"

text \<open>\<^verbatim>\<open>x['results']\<close>: a dict's value or \<^verbatim>\<open>KeyError\<close>; nothing else takes a str index.\<close>

fun py_getitem :: "json \<Rightarrow> string \<Rightarrow> py_error + json" where
  "py_getitem (JDict d) k = (case map_of d k of Some v \<Rightarrow> Inr v | None \<Rightarrow> Inl KeyError)"
| "py_getitem x k = Inl TypeError"

text \<open>\<^verbatim>\<open>x[:n]\<close>: a negative \<open>n\<close> counts from the end. A str and a list can be sliced (a
  dict raises \<^verbatim>\<open>TypeError\<close> up to Python 3.11 and \<^verbatim>\<open>KeyError\<close> from 3.12; no caller
  catches either).\<close>

definition slice_to :: "int \<Rightarrow> 'a list \<Rightarrow> 'a list" where
  "slice_to n xs = (if n < 0 then take (nat (int (length xs) + n)) xs else take (nat n) xs)"

fun py_slice_to :: "int \<Rightarrow> json \<Rightarrow> py_error + json" where
  "py_slice_to n (JStr s) = Inr (JStr (slice_to n s))"
| "py_slice_to n (JList xs) = Inr (JList (slice_to n xs))"
| "py_slice_to n x = Inl TypeError"

text \<open>\<^verbatim>\<open>for item in x\<close>: the elements of a list, the keys of a dict, the characters of a
  str.\<close>

fun py_iter :: "json \<Rightarrow> py_error + json list" where
  "py_iter (JList xs) = Inr xs"
| "py_iter (JDict d) = Inr (map (\<lambda>kv. JStr (fst kv)) d)"
| "py_iter (JStr s) = Inr (map (\<lambda>c. JStr [c]) s)"
| "py_iter x = Inl TypeError"

text \<open>A loop or comprehension whose body can raise: the first exception ends it.\<close>

fun map_err :: "('a \<Rightarrow> py_error + 'b) \<Rightarrow> 'a list \<Rightarrow> py_error + 'b list" where
  "map_err f [] = Inr []"
| "map_err f (x # xs) =
     (case f x of Inl e \<Rightarrow> Inl e
      | Inr y \<Rightarrow> (case map_err f xs of Inl e \<Rightarrow> Inl e | Inr ys \<Rightarrow> Inr (y # ys)))"

text \<open>\<^verbatim>\<open>str(n)\<close> of an int, as an f-string writes it.\<close>

definition digit_chr :: "int \<Rightarrow> char" where
  "digit_chr d = ''0123456789'' ! nat d"

fun str_nat :: "nat \<Rightarrow> string" where
  "str_nat n =
     (if n < 10 then [digit_chr (int n)]
      else str_nat (n div 10) @ [digit_chr (int (n mod 10))])"

declare str_nat.simps [simp del]

definition str_int :: "int \<Rightarrow> string" where
  "str_int i = (if i < 0 then CHR ''-'' # str_nat (nat (- i)) else str_nat (nat i))"

text \<open>
  What an f-string writes for a value: a str as it is, an int in decimal, \<^verbatim>\<open>None\<close>,
  \<^verbatim>\<open>True\<close>, \<^verbatim>\<open>False\<close>. For a list or a dict it is \<^verbatim>\<open>repr\<close>, which is the
  parameter \<open>repr\<close>.
\<close>

fun py_format :: "(json \<Rightarrow> string) \<Rightarrow> json \<Rightarrow> string" where
  "py_format repr (JStr s) = s"
| "py_format repr (JInt i) = str_int i"
| "py_format repr JNull = ''None''"
| "py_format repr (JBool b) = (if b then ''True'' else ''False'')"
| "py_format repr x = repr x"

text \<open>
  \<^verbatim>\<open>urllib.parse.quote(term)\<close>: letters, digits and \<^verbatim>\<open>_.-~/\<close> stay; every other
  character is written as \<^verbatim>\<open>%XX\<close> for each byte of its UTF-8 encoding.
\<close>

definition hex_chr :: "nat \<Rightarrow> char" where
  "hex_chr d = ''0123456789ABCDEF'' ! d"

definition pct :: "nat \<Rightarrow> string" where
  "pct b = [CHR ''%'', hex_chr (b div 16), hex_chr (b mod 16)]"

definition quote_chr :: "char \<Rightarrow> string" where
  "quote_chr c =
     (if (48 \<le> code c \<and> code c \<le> 57) \<or> (65 \<le> code c \<and> code c \<le> 90)
         \<or> (97 \<le> code c \<and> code c \<le> 122) \<or> c \<in> set ''_.-~/''
      then [c]
      else if code c < 128 then pct (code c)
      else pct (192 + code c div 64) @ pct (128 + code c mod 64))"

definition quote :: "string \<Rightarrow> string" where
  "quote s = concat (map quote_chr s)"

subsection \<open>\<^verbatim>\<open>datetime\<close>\<close>

text \<open>
  A naive \<^verbatim>\<open>datetime\<close> is its seven fields. The difference of two of them is a
  \<^verbatim>\<open>timedelta\<close>, here a number of microseconds, computed from the proleptic Gregorian
  ordinal of the date as the library does.
\<close>

record datetime =
  year :: int
  month :: int
  day :: int
  hour :: int
  minute :: int
  second :: int
  microsecond :: int

definition is_leap :: "int \<Rightarrow> bool" where
  "is_leap y = (y mod 4 = 0 \<and> (y mod 400 = 0 \<or> y mod 100 \<noteq> 0))"

definition days_in_month :: "int \<Rightarrow> int \<Rightarrow> int" where
  "days_in_month y m =
     (if m = 2 then (if is_leap y then 29 else 28)
      else if m = 4 \<or> m = 6 \<or> m = 9 \<or> m = 11 then 30 else 31)"

definition days_before_year :: "int \<Rightarrow> int" where
  "days_before_year y = (y - 1) * 365 + (y - 1) div 4 - (y - 1) div 100 + (y - 1) div 400"

definition days_before_month :: "int \<Rightarrow> int \<Rightarrow> int" where
  "days_before_month y m =
     [0, 31, 59, 90, 120, 151, 181, 212, 243, 273, 304, 334] ! nat (m - 1)
     + (if m > 2 \<and> is_leap y then 1 else 0)"

definition toordinal :: "datetime \<Rightarrow> int" where
  "toordinal t = days_before_year (year t) + days_before_month (year t) (month t) + day t"

definition valid_datetime :: "datetime \<Rightarrow> bool" where
  "valid_datetime t =
     (1 \<le> year t \<and> year t \<le> 9999 \<and> 1 \<le> month t \<and> month t \<le> 12
      \<and> 1 \<le> day t \<and> day t \<le> days_in_month (year t) (month t)
      \<and> 0 \<le> hour t \<and> hour t < 24 \<and> 0 \<le> minute t \<and> minute t < 60
      \<and> 0 \<le> second t \<and> second t < 60
      \<and> 0 \<le> microsecond t \<and> microsecond t < 1000000)"

definition to_micros :: "datetime \<Rightarrow> int" where
  "to_micros t =
     (((toordinal t * 24 + hour t) * 60 + minute t) * 60 + second t) * 1000000
     + microsecond t"

text \<open>\<^verbatim>\<open>datetime.isoformat()\<close>: \<^verbatim>\<open>YYYY-MM-DDTHH:MM:SS\<close>, followed by \<^verbatim>\<open>.ffffff\<close> when
  the microseconds are not zero.\<close>

definition pad2 :: "int \<Rightarrow> string" where
  "pad2 n = [digit_chr (n div 10 mod 10), digit_chr (n mod 10)]"

definition pad4 :: "int \<Rightarrow> string" where
  "pad4 n = pad2 (n div 100) @ pad2 (n mod 100)"

definition pad6 :: "int \<Rightarrow> string" where
  "pad6 n = pad2 (n div 10000) @ pad4 (n mod 10000)"

definition isoformat :: "datetime \<Rightarrow> string" where
  "isoformat t =
     pad4 (year t) @ ''-'' @ pad2 (month t) @ ''-'' @ pad2 (day t) @ ''T''
     @ pad2 (hour t) @ '':'' @ pad2 (minute t) @ '':'' @ pad2 (second t)
     @ (if microsecond t = 0 then [] else ''.'' @ pad6 (microsecond t))"

text \<open>
  \<^verbatim>\<open>datetime.fromisoformat(s)\<close>, for the forms the cache meets: the date alone (the
  default \<^verbatim>\<open>'1970-01-01'\<close>), and what \<^verbatim>\<open>isoformat()\<close> writes for a naive datetime,
  with any one character as the separator. \<open>None\<close> is \<^verbatim>\<open>ValueError\<close>. The further
  forms that newer Python versions also parse (reduced precision, basic format, UTC
  offsets) are not modelled; no statement below depends on them.
\<close>

definition num :: "string \<Rightarrow> int option" where
  "num s = (if list_all is_digit s then Some (foldl (\<lambda>a c. 10 * a + digit_val c) 0 s)
            else None)"

definition parse_time :: "string \<Rightarrow> (int \<times> int \<times> int \<times> int) option" where
  "parse_time s =
     (if (length s = 8 \<or> length s = 15) \<and> s ! 2 = CHR '':'' \<and> s ! 5 = CHR '':''
         \<and> (length s = 8 \<or> s ! 8 = CHR ''.'')
      then (case (num (take 2 s), num (take 2 (drop 3 s)), num (take 2 (drop 6 s)),
                  num (drop 9 s)) of
              (Some h, Some m, Some x, Some us) \<Rightarrow> Some (h, m, x, us)
            | _ \<Rightarrow> None)
      else None)"

definition parse_date :: "string \<Rightarrow> (int \<times> int \<times> int) option" where
  "parse_date s =
     (if length s = 10 \<and> s ! 4 = CHR ''-'' \<and> s ! 7 = CHR ''-''
      then (case (num (take 4 s), num (take 2 (drop 5 s)), num (take 2 (drop 8 s))) of
              (Some y, Some m, Some d) \<Rightarrow> Some (y, m, d)
            | _ \<Rightarrow> None)
      else None)"

definition fromisoformat :: "string \<Rightarrow> datetime option" where
  "fromisoformat s =
     (case parse_date (take 10 s) of
        None \<Rightarrow> None
      | Some (y, m, d) \<Rightarrow>
          (case (if length s = 10 then Some (0, 0, 0, 0) else parse_time (drop 11 s)) of
             None \<Rightarrow> None
           | Some (h, mi, x, us) \<Rightarrow>
               (let t = \<lparr>year = y, month = m, day = d, hour = h, minute = mi, second = x,
                          microsecond = us\<rparr>
                in if valid_datetime t then Some t else None)))"

subsection \<open>The cache store\<close>

text \<open>
  The state is the set of files the cache directory and its surroundings hold, as a map
  from a file to its content. A file is kept as what \<^verbatim>\<open>json.load\<close> makes of it: a
  value, or \<open>NotJson\<close> for text that raises \<^verbatim>\<open>JSONDecodeError\<close>; \<^verbatim>\<open>json.dump\<close>
  followed by \<^verbatim>\<open>json.load\<close> gives the value back. The values of
  \<^verbatim>\<open>datetime.now()\<close> are arguments.

  What \<^verbatim>\<open>pathlib\<close> and the operating system make of the path
  \<^verbatim>\<open>CACHE_DIR / f"{key}.json"\<close> is the argument \<open>resolve\<close>, since it depends on the
  key, on the directory and on the system:
  \<^item> \<open>File p\<close>: the path names the file \<open>p\<close>, present or not, in a directory that exists;
    two keys can name the same file (\<^verbatim>\<open>k\<close> and \<^verbatim>\<open>./k\<close>).
  \<^item> \<open>NoSuchDir\<close>, \<open>NotADir\<close>: a directory on the path is missing (\<^verbatim>\<open>ENOENT\<close>) or is
    a file (\<^verbatim>\<open>ENOTDIR\<close>). \<^verbatim>\<open>exists()\<close> is false; \<^verbatim>\<open>open(cache_file, 'w')\<close> raises
    \<^verbatim>\<open>FileNotFoundError\<close> or \<^verbatim>\<open>NotADirectoryError\<close>.
  \<^item> \<open>NulByte\<close>: the key has a NUL character. \<^verbatim>\<open>exists()\<close> is false; \<^verbatim>\<open>open\<close>
    raises \<^verbatim>\<open>ValueError\<close>.
  \<^item> \<open>NameTooLong\<close>: a name or the path is too long (\<^verbatim>\<open>ENAMETOOLONG\<close>). \<^verbatim>\<open>open\<close>
    raises \<^verbatim>\<open>OSError\<close>, and so does \<^verbatim>\<open>exists()\<close> up to Python 3.12, outside the
    \<^verbatim>\<open>try\<close> block of \<^verbatim>\<open>_get_cached\<close>.
  Permissions are taken to allow every access.
\<close>

datatype file_content = NotJson | JsonText json

type_synonym files = "string \<rightharpoonup> file_content"

datatype path_status = File string | NoSuchDir | NotADir | NulByte | NameTooLong

definition CACHE_TTL :: int where
  "CACHE_TTL = 3600"

text \<open>\<^verbatim>\<open>timedelta(seconds=n)\<close>, in microseconds.\<close>

definition timedelta_seconds :: "int \<Rightarrow> int" where
  "timedelta_seconds n = n * 1000000"

text \<open>\<^verbatim>\<open>cache_file.exists()\<close>.\<close>

fun path_exists :: "path_status \<Rightarrow> files \<Rightarrow> py_error + bool" where
  "path_exists (File p) dir = Inr (dir p \<noteq> None)"
| "path_exists NameTooLong dir = Inl OSError"
| "path_exists st dir = Inr False"

text \<open>\<^verbatim>\<open>open(cache_file)\<close> and \<^verbatim>\<open>json.load(f)\<close>, reached only after \<^verbatim>\<open>exists()\<close> was
  true.\<close>

fun load_file :: "path_status \<Rightarrow> files \<Rightarrow> py_error + json" where
  "load_file (File p) dir =
     (case dir p of
        None \<Rightarrow> Inl FileNotFoundError
      | Some NotJson \<Rightarrow> Inl JSONDecodeError
      | Some (JsonText data) \<Rightarrow> Inr data)"
| "load_file NoSuchDir dir = Inl FileNotFoundError"
| "load_file NotADir dir = Inl NotADirectoryError"
| "load_file NulByte dir = Inl ValueError"
| "load_file NameTooLong dir = Inl OSError"

text \<open>The body of the \<^verbatim>\<open>try\<close> block of \<^verbatim>\<open>_get_cached\<close>; falling out of it without
  \<^verbatim>\<open>return\<close> reaches the final \<^verbatim>\<open>return None\<close>.\<close>

definition read_entry :: "datetime \<Rightarrow> path_status \<Rightarrow> files \<Rightarrow> py_error + json" where
  "read_entry now st dir =
     then_do (load_file st dir) (\<lambda>data.
     then_do (dict_get data ''cached_at'' (JStr ''1970-01-01'')) (\<lambda>ts.
       case ts of
         JStr s \<Rightarrow>
           (case fromisoformat s of
              None \<Rightarrow> Inl ValueError
            | Some cached_at \<Rightarrow>
                if to_micros now - to_micros cached_at < timedelta_seconds CACHE_TTL
                then dict_get data ''data'' JNull
                else Inr JNull)
       | other \<Rightarrow> Inl TypeError))"

text \<open>\<^verbatim>\<open>_get_cached\<close>: \<^verbatim>\<open>except (json.JSONDecodeError, KeyError): pass\<close> turns these two
  exceptions into the final \<^verbatim>\<open>return None\<close>; any other exception leaves the method.\<close>

definition get_cached ::
  "bool \<Rightarrow> (string \<Rightarrow> path_status) \<Rightarrow> datetime \<Rightarrow> files \<Rightarrow> string \<Rightarrow> py_error + json" where
  "get_cached use_cache resolve now dir key =
     (if \<not> use_cache then Inr JNull
      else
        then_do (path_exists (resolve key) dir) (\<lambda>found.
        if found
        then (case read_entry now (resolve key) dir of
                Inl e \<Rightarrow> if e = JSONDecodeError \<or> e = KeyError then Inr JNull else Inl e
              | Inr v \<Rightarrow> Inr v)
        else Inr JNull))"

text \<open>\<^verbatim>\<open>_set_cached\<close>: the method does not read \<^verbatim>\<open>self.use_cache\<close>; the argument is kept
  to state that.\<close>

definition set_cached ::
  "bool \<Rightarrow> (string \<Rightarrow> path_status) \<Rightarrow> datetime \<Rightarrow> files \<Rightarrow> string \<Rightarrow> json
   \<Rightarrow> py_error + files" where
  "set_cached use_cache resolve now dir key data =
     (case resolve key of
        File p \<Rightarrow> Inr (dir(p \<mapsto> JsonText (JDict [(''cached_at'', JStr (isoformat now)),
                                                     (''data'', data)])))
      | NoSuchDir \<Rightarrow> Inl FileNotFoundError
      | NotADir \<Rightarrow> Inl NotADirectoryError
      | NulByte \<Rightarrow> Inl ValueError
      | NameTooLong \<Rightarrow> Inl OSError)"

subsection \<open>\<^verbatim>\<open>ImageResult\<close>\<close>

text \<open>The dataclass does not check its field types: every field holds whatever value the
  caller passes.\<close>

record ImageResult =
  name :: json
  registry :: json
  description :: json
  stars :: json
  pulls :: json
  official :: json
  latest_tag :: json

definition field_names :: "string list" where
  "field_names = [''name'', ''registry'', ''description'', ''stars'', ''pulls'', ''official'',
             ''latest_tag'']"

text \<open>\<^verbatim>\<open>asdict(self)\<close>.\<close>

definition to_dict :: "ImageResult \<Rightarrow> json" where
  "to_dict r =
     JDict [(''name'', name r), (''registry'', registry r), (''description'', description r),
            (''stars'', stars r), (''pulls'', pulls r), (''official'', official r),
            (''latest_tag'', latest_tag r)]"

text \<open>\<^verbatim>\<open>ImageResult(**r)\<close>: \<open>r\<close> must be a mapping, each key a field name, and the three
  fields without a default present; else \<^verbatim>\<open>TypeError\<close>.\<close>

definition from_dict :: "json \<Rightarrow> py_error + ImageResult" where
  "from_dict r =
     (case r of
        JDict d \<Rightarrow>
          if list_all (\<lambda>k. k \<in> set field_names) (map fst d)
             \<and> list_all (\<lambda>k. k \<in> set (map fst d)) [''name'', ''registry'', ''description'']
          then Inr \<lparr>name = the (map_of d ''name''),
                     registry = the (map_of d ''registry''),
                     description = the (map_of d ''description''),
                     stars = (case map_of d ''stars'' of Some v \<Rightarrow> v | None \<Rightarrow> JInt 0),
                     pulls = (case map_of d ''pulls'' of Some v \<Rightarrow> v | None \<Rightarrow> JInt 0),
                     official = (case map_of d ''official'' of Some v \<Rightarrow> v
                                 | None \<Rightarrow> JBool False),
                     latest_tag = (case map_of d ''latest_tag'' of Some v \<Rightarrow> v
                                   | None \<Rightarrow> JStr ''latest'')\<rparr>
          else Inl TypeError
      | other \<Rightarrow> Inl TypeError)"

subsection \<open>The HTTP fetcher and the two adapters\<close>

text \<open>
  The world is the files and the log of the URLs fetched. \<open>net n url\<close> is what
  \<^verbatim>\<open>_http_get(url)\<close> returns when \<open>n\<close> requests were made before: the parsed body, or
  \<open>JNull\<close> after a transport or decode failure, which the method has caught.
\<close>

record world =
  cache :: files
  calls :: "string list"

definition http_get :: "(nat \<Rightarrow> string \<Rightarrow> json) \<Rightarrow> string \<Rightarrow> world \<Rightarrow> json \<times> world" where
  "http_get net url w = (net (length (calls w)) url, w\<lparr>calls := calls w @ [url]\<rparr>)"

text \<open>\<^verbatim>\<open>x or ''\<close>.\<close>

definition or_empty :: "json \<Rightarrow> json" where
  "or_empty x = (if truthy x then x else JStr [])"

text \<open>The \<^verbatim>\<open>ImageResult(...)\<close> built from one Docker Hub record.\<close>

definition docker_item :: "json \<Rightarrow> py_error + ImageResult" where
  "docker_item item =
     then_do (dict_get item ''repo_name'' (JStr [])) (\<lambda>n.
     then_do (dict_get item ''short_description'' JNull) (\<lambda>sd.
     then_do (py_slice_to 100 (or_empty sd)) (\<lambda>descr.
     then_do (dict_get item ''star_count'' (JInt 0)) (\<lambda>sc.
     then_do (dict_get item ''pull_count'' (JInt 0)) (\<lambda>pc.
     then_do (dict_get item ''is_official'' (JBool False)) (\<lambda>off.
       Inr \<lparr>name = n, registry = JStr ''docker.io'', description = descr, stars = sc,
             pulls = pc, official = off, latest_tag = JStr ''latest''\<rparr>))))))"

text \<open>The \<^verbatim>\<open>ImageResult(...)\<close> built from one Quay record.\<close>

definition quay_item :: "(json \<Rightarrow> string) \<Rightarrow> json \<Rightarrow> py_error + ImageResult" where
  "quay_item repr item =
     then_do (dict_get item ''namespace'' (JDict [])) (\<lambda>ns.
     then_do (dict_get ns ''name'' (JStr [])) (\<lambda>namespace.
     then_do (dict_get item ''name'' (JStr [])) (\<lambda>nm.
     then_do (dict_get item ''description'' JNull) (\<lambda>d.
     then_do (py_slice_to 100 (or_empty d)) (\<lambda>descr.
       Inr \<lparr>name = JStr (''quay.io/'' @ py_format repr namespace @ ''/''
                          @ py_format repr nm),
             registry = JStr ''quay.io'', description = descr, stars = JInt 0,
             pulls = JInt 0, official = JBool False, latest_tag = JStr ''latest''\<rparr>)))))"

text \<open>\<^verbatim>\<open>return [ImageResult(**r) for r in cached]\<close>.\<close>

definition from_cached :: "json \<Rightarrow> py_error + ImageResult list" where
  "from_cached cached = then_do (py_iter cached) (map_err from_dict)"

text \<open>The cache keys and the URLs, as the f-strings write them.\<close>

definition docker_cache_key :: "string \<Rightarrow> int \<Rightarrow> string" where
  "docker_cache_key term limit = ''dockerhub_'' @ term @ ''_'' @ str_int limit"

definition docker_url :: "string \<Rightarrow> int \<Rightarrow> string" where
  "docker_url term limit =
     ''https://hub.docker.com/v2/search/repositories/?query='' @ quote term
     @ ''&page_size='' @ str_int limit"

definition quay_cache_key :: "string \<Rightarrow> int \<Rightarrow> string" where
  "quay_cache_key term limit = ''quay_'' @ term @ ''_'' @ str_int limit"

definition quay_url :: "string \<Rightarrow> string" where
  "quay_url term = ''https://quay.io/api/v1/find/repositories?query='' @ quote term @ ''&page=1''"

text \<open>
  \<^verbatim>\<open>search_docker_hub\<close>. \<open>now_r\<close> and \<open>now_w\<close> are the clock readings of
  \<^verbatim>\<open>_get_cached\<close> and \<^verbatim>\<open>_set_cached\<close>. An exception that leaves the method is
  \<open>Inl\<close>.
\<close>

definition search_docker_hub ::
  "bool \<Rightarrow> (string \<Rightarrow> path_status) \<Rightarrow> (nat \<Rightarrow> string \<Rightarrow> json) \<Rightarrow> datetime \<Rightarrow> datetime
   \<Rightarrow> string \<Rightarrow> int \<Rightarrow> world \<Rightarrow> py_error + ImageResult list \<times> world" where
  "search_docker_hub use_cache resolve net now_r now_w term limit w =
     (let cache_key = docker_cache_key term limit in
      then_do (get_cached use_cache resolve now_r (cache w) cache_key) (\<lambda>cached.
      if truthy cached
      then then_do (from_cached cached) (\<lambda>rs. Inr (rs, w))
      else
        let url = docker_url term limit;
            (data, w1) = http_get net url w
        in if \<not> truthy data then Inr ([], w1)
           else
             then_do (py_contains ''results'' data) (\<lambda>has.
             if \<not> has then Inr ([], w1)
             else
               then_do (py_getitem data ''results'') (\<lambda>rs.
               then_do (py_iter rs) (\<lambda>items.
               then_do (map_err docker_item items) (\<lambda>results.
               then_do (set_cached use_cache resolve now_w (cache w1) cache_key
                          (JList (map to_dict results))) (\<lambda>dir.
                 Inr (results, w1\<lparr>cache := dir\<rparr>))))))))"

text \<open>\<^verbatim>\<open>search_quay\<close>: as above, with \<^verbatim>\<open>data['results'][:limit]\<close>.\<close>

definition search_quay ::
  "bool \<Rightarrow> (string \<Rightarrow> path_status) \<Rightarrow> (json \<Rightarrow> string) \<Rightarrow> (nat \<Rightarrow> string \<Rightarrow> json)
   \<Rightarrow> datetime \<Rightarrow> datetime \<Rightarrow> string \<Rightarrow> int \<Rightarrow> world
   \<Rightarrow> py_error + ImageResult list \<times> world" where
  "search_quay use_cache resolve repr net now_r now_w term limit w =
     (let cache_key = quay_cache_key term limit in
      then_do (get_cached use_cache resolve now_r (cache w) cache_key) (\<lambda>cached.
      if truthy cached
      then then_do (from_cached cached) (\<lambda>rs. Inr (rs, w))
      else
        let url = quay_url term;
            (data, w1) = http_get net url w
        in if \<not> truthy data then Inr ([], w1)
           else
             then_do (py_contains ''results'' data) (\<lambda>has.
             if \<not> has then Inr ([], w1)
             else
               then_do (py_getitem data ''results'') (\<lambda>rs.
               then_do (py_slice_to limit rs) (\<lambda>page.
               then_do (py_iter page) (\<lambda>items.
               then_do (map_err (quay_item repr) items) (\<lambda>results.
               then_do (set_cached use_cache resolve now_w (cache w1) cache_key
                          (JList (map to_dict results))) (\<lambda>dir.
                 Inr (results, w1\<lparr>cache := dir\<rparr>)))))))))"

subsection \<open>Example inputs\<close>

text \<open>
  The examples run on \<open>posix_flat\<close>: a Linux file system with names of at most 255
  bytes, where the cache directory has no subdirectory and its own path is short. A key
  with a NUL character is refused before any path is looked up. A key without
  \<^verbatim>\<open>/\<close> names the file \<^verbatim>\<open>key.json\<close> of the directory when that name fits, its
  length counted in UTF-8. A key with \<^verbatim>\<open>/\<close> is taken to name a path below a missing
  directory: that is what happens when the text before the first \<^verbatim>\<open>/\<close> is a name of
  at most 255 bytes other than the empty one, \<^verbatim>\<open>.\<close> and \<^verbatim>\<open>..\<close>, as for every key
  the adapters build; for the remaining keys with \<^verbatim>\<open>/\<close> (absolute paths, paths
  through \<^verbatim>\<open>.\<close> or \<^verbatim>\<open>..\<close>) \<open>posix_flat\<close> is not what the system does, and the
  examples use none of them. The other inputs are clock readings within one hour, a
  backend that is down, backends that answer with two records, a \<^verbatim>\<open>repr\<close>, and the
  results and worlds that the examples reach.
\<close>

definition utf8_length :: "string \<Rightarrow> nat" where
  "utf8_length s = sum_list (map (\<lambda>c. if code c < 128 then 1 else 2) s)"

definition posix_flat :: "string \<Rightarrow> path_status" where
  "posix_flat key =
     (if CHR 0x00 \<in> set key then NulByte
      else if CHR ''/'' \<in> set key then NoSuchDir
      else if 255 < utf8_length (key @ ''.json'') then NameTooLong
      else File (key @ ''.json''))"

definition ex_long_key :: string where
  "ex_long_key = replicate 251 CHR ''x''"

definition ex_midnight :: datetime where
  "ex_midnight = \<lparr>year = 2024, month = 1, day = 1, hour = 0, minute = 0, second = 0,
                  microsecond = 0\<rparr>"

definition ex_one_am :: datetime where
  "ex_one_am = \<lparr>year = 2024, month = 1, day = 1, hour = 1, minute = 0, second = 0,
                microsecond = 0\<rparr>"

definition ex_before_one :: datetime where
  "ex_before_one = \<lparr>year = 2024, month = 1, day = 1, hour = 0, minute = 59, second = 59,
                    microsecond = 999999\<rparr>"

definition ex_net_down :: "nat \<Rightarrow> string \<Rightarrow> json" where
  "ex_net_down n url = JNull"

definition ex_docker_records :: "json list" where
  "ex_docker_records = [JDict [(''repo_name'', JStr ''nginx''), (''star_count'', JInt 9)],
                        JDict [(''repo_name'', JStr ''bitnami/nginx'')]]"

definition ex_docker_net :: "nat \<Rightarrow> string \<Rightarrow> json" where
  "ex_docker_net n url = JDict [(''results'', JList ex_docker_records)]"

definition ex_quay_net :: "nat \<Rightarrow> string \<Rightarrow> json" where
  "ex_quay_net n url =
     JDict [(''results'',
             JList [JDict [(''namespace'', JDict [(''name'', JStr ''bitnami'')]),
                           (''name'', JStr ''nginx'')],
                    JDict [(''namespace'', JDict [(''name'', JStr ''nginxinc'')]),
                           (''name'', JStr ''nginx-unprivileged'')]])]"

definition ex_repr :: "json \<Rightarrow> string" where
  "ex_repr x = ''?''"

definition ex_image :: "string \<Rightarrow> string \<Rightarrow> int \<Rightarrow> ImageResult" where
  "ex_image reg n s = \<lparr>name = JStr n, registry = JStr reg, description = JStr [],
                       stars = JInt s, pulls = JInt 0, official = JBool False,
                       latest_tag = JStr ''latest''\<rparr>"

definition ex_docker_results :: "ImageResult list" where
  "ex_docker_results = [ex_image ''docker.io'' ''nginx'' 9,
                        ex_image ''docker.io'' ''bitnami/nginx'' 0]"

definition ex_fresh :: world where
  "ex_fresh = \<lparr>cache = Map.empty, calls = []\<rparr>"

definition ex_docker_url :: string where
  "ex_docker_url = ''https://hub.docker.com/v2/search/repositories/?query=nginx&page_size=1''"

definition ex_quay_url :: string where
  "ex_quay_url = ''https://quay.io/api/v1/find/repositories?query=nginx&page=1''"

definition ex_entry :: "ImageResult list \<Rightarrow> file_content" where
  "ex_entry rs = JsonText (JDict [(''cached_at'', JStr ''2024-01-01T00:00:00''),
                                  (''data'', JList (map to_dict rs))])"

definition ex_after_docker :: world where
  "ex_after_docker = \<lparr>cache = [''dockerhub_nginx_1.json'' \<mapsto> ex_entry ex_docker_results],
                       calls = [ex_docker_url]\<rparr>"

subsection \<open>Facts about the stable descending sort\<close>

lemma last_insort_key:
  "last (insort_key f x zs) = (if list_all (\<lambda>z. f z < f x) zs then x else last zs)"
  by (induction zs) (auto simp: not_less)

lemma last_sort_key_split:
  "xs \<noteq> [] \<Longrightarrow>
   \<exists>pre post. xs = pre @ last (sort_key f xs) # post
     \<and> list_all (\<lambda>u. f u \<le> f (last (sort_key f xs))) pre
     \<and> list_all (\<lambda>u. f u < f (last (sort_key f xs))) post"
proof (induction xs)
  case Nil
  then show ?case by simp
next
  case (Cons x xs)
  show ?case
  proof (cases "xs = []")
    case True
    then show ?thesis
      by (intro exI [of _ "[]"]) simp
  next
    case False
    from Cons.IH [OF False] obtain pre post where
      split: "xs = pre @ last (sort_key f xs) # post"
      and pre: "list_all (\<lambda>u. f u \<le> f (last (sort_key f xs))) pre"
      and post: "list_all (\<lambda>u. f u < f (last (sort_key f xs))) post"
      by blast
    let ?r = "last (sort_key f xs)"
    have srt: "sort_key f (x # xs) = insort_key f x (sort_key f xs)" by simp
    show ?thesis
    proof (cases "list_all (\<lambda>z. f z < f x) (sort_key f xs)")
      case True
      then have l: "last (sort_key f (x # xs)) = x"
        by (simp add: last_insort_key)
      from True have "list_all (\<lambda>z. f z < f x) xs"
        by (simp add: list_all_iff)
      then show ?thesis
        unfolding l by (intro exI [of _ "[]"] exI [of _ xs]) simp
    next
      case False
      then have l: "last (sort_key f (x # xs)) = ?r"
        by (simp add: last_insort_key)
      from False obtain z where z: "z \<in> set xs" "f x \<le> f z"
        by (auto simp: list_all_iff not_less)
      have "f z \<le> f ?r"
        using z(1) pre post by (subst (asm) split) (auto simp: list_all_iff)
      with z(2) have "f x \<le> f ?r" by simp
      then show ?thesis
        unfolding l using split pre post
        by (intro exI [of _ "x # pre"] exI [of _ post]) simp
    qed
  qed
qed

lemma hd_sort_reverse_split:
  assumes "xs \<noteq> []"
  shows "\<exists>pre post. xs = pre @ hd (sort_reverse f xs) # post
     \<and> list_all (\<lambda>u. f u < f (hd (sort_reverse f xs))) pre
     \<and> list_all (\<lambda>u. f u \<le> f (hd (sort_reverse f xs))) post"
proof -
  let ?r = "last (sort_key f (rev xs))"
  have ne: "sort_key f (rev xs) \<noteq> []"
    using assms by (metis length_sort length_rev length_0_conv)
  have hd: "hd (sort_reverse f xs) = ?r"
    unfolding sort_reverse_def using ne by (simp add: hd_rev)
  from assms have "rev xs \<noteq> []" by simp
  from last_sort_key_split [OF this, of f] obtain pre post where
    split: "rev xs = pre @ ?r # post"
    and pre: "list_all (\<lambda>u. f u \<le> f ?r) pre"
    and post: "list_all (\<lambda>u. f u < f ?r) post"
    by blast
  from split have "xs = rev post @ ?r # rev pre"
    by (metis rev_rev_ident rev_append rev.simps(2) append.assoc append_Cons append_Nil)
  then show ?thesis
    unfolding hd using pre post
    by (intro exI [of _ "rev post"] exI [of _ "rev pre"]) simp
qed

lemma filter_split_at:
  "filter P xs = ys @ r # zs \<Longrightarrow>
   \<exists>us vs. xs = us @ r # vs \<and> filter P us = ys \<and> filter P vs = zs"
proof (induction xs arbitrary: ys)
  case Nil
  then show ?case by simp
next
  case (Cons x xs)
  show ?case
  proof (cases "P x")
    case False
    with Cons.prems have "filter P xs = ys @ r # zs" by simp
    from Cons.IH [OF this] obtain us vs where
      "xs = us @ r # vs" "filter P us = ys" "filter P vs = zs" by blast
    with False show ?thesis
      by (intro exI [of _ "x # us"] exI [of _ vs]) simp
  next
    case True
    show ?thesis
    proof (cases ys)
      case Nil
      with True Cons.prems show ?thesis
        by (intro exI [of _ "[]"] exI [of _ xs]) simp
    next
      case (Cons y ys')
      with True Cons.prems have "x = y" "filter P xs = ys' @ r # zs" by simp_all
      from Cons.IH [OF this(2)] obtain us vs where
        "xs = us @ r # vs" "filter P us = ys'" "filter P vs = zs" by blast
      with True Cons \<open>x = y\<close> show ?thesis
        by (intro exI [of _ "x # us"] exI [of _ vs]) simp
    qed
  qed
qed

lemma sort_reverse_set: "set (sort_reverse f xs) = set xs"
  by (simp add: sort_reverse_def)

lemma sort_reverse_Nil_iff: "sort_reverse f xs = [] \<longleftrightarrow> xs = []"
  by (metis sort_reverse_set set_empty)

lemma get_best_tag_valid:
  "valid_tags tags \<noteq> [] \<Longrightarrow> get_best_tag tags = hd (sort_reverse version_key (valid_tags tags))"
  by (auto simp: get_best_tag_def valid_tags_def)

lemma get_best_tag_in_valid:
  assumes "valid_tags tags \<noteq> []"
  shows "get_best_tag tags \<in> set (valid_tags tags)"
proof -
  have "sort_reverse version_key (valid_tags tags) \<noteq> []"
    using assms by (simp add: sort_reverse_Nil_iff)
  then have "hd (sort_reverse version_key (valid_tags tags)) \<in> set (sort_reverse version_key (valid_tags tags))"
    by (rule hd_in_set)
  then show ?thesis
    using assms by (simp add: get_best_tag_valid sort_reverse_set)
qed

subsection \<open>Claims about the tag ranking\<close>

text \<open>
  C5. The three examples of the ranking: \<^verbatim>\<open>["1.2","1.10","1.9","2.0"]\<close> gives
  \<^verbatim>\<open>"2.0"\<close>, \<^verbatim>\<open>["1.2"]\<close> gives \<^verbatim>\<open>"1.2"\<close>, and the empty list gives the literal
  \<^verbatim>\<open>"latest"\<close>.
\<close>

theorem best_tag_examples:
  "get_best_tag [''1.2'', ''1.10'', ''1.9'', ''2.0''] = ''2.0''
   \<and> get_best_tag [''1.2''] = ''1.2''
   \<and> get_best_tag [] = ''latest''"
  by code_simp

text \<open>
  C6. A tag of the fetched list is a ranking candidate exactly when it matches the
  release shape and its whole lower-cased string is none of the thirteen words. The tag
  \<^verbatim>\<open>"3.0.0-rc1"\<close> is not excluded, matches the shape, and so is a candidate whenever it
  is fetched.
\<close>

theorem exclusion_is_whole_string:
  "(t \<in> set (valid_tags tags) \<longleftrightarrow>
      t \<in> set tags \<and> semver_match t
      \<and> py_lower t \<notin> {''latest'', ''edge'', ''nightly'', ''dev'', ''develop'', ''master'',
            ''main'', ''unstable'', ''beta'', ''alpha'', ''rc'', ''test'', ''testing''})
   \<and> py_lower ''3.0.0-rc1'' \<notin> exclude
   \<and> semver_match ''3.0.0-rc1''
   \<and> (''3.0.0-rc1'' \<in> set tags \<longrightarrow> ''3.0.0-rc1'' \<in> set (valid_tags tags))"
proof -
  have a: "py_lower ''3.0.0-rc1'' \<notin> exclude" by code_simp
  have b: "semver_match ''3.0.0-rc1''" by code_simp
  have c: "t \<in> set (valid_tags tags) \<longleftrightarrow>
      t \<in> set tags \<and> semver_match t
      \<and> py_lower t \<notin> {''latest'', ''edge'', ''nightly'', ''dev'', ''develop'', ''master'',
            ''main'', ''unstable'', ''beta'', ''alpha'', ''rc'', ''test'', ''testing''}"
    unfolding valid_tags_def exclude_def by auto
  from a b show ?thesis
    unfolding c by (simp add: valid_tags_def)
qed

theorem exclusion_is_whole_string_witness:
  "''3.0.0-rc1'' \<in> set [''rc'', ''3.0.0-rc1'', ''RC'']
   \<and> ''3.0.0-rc1'' \<in> set (valid_tags [''rc'', ''3.0.0-rc1'', ''RC''])
   \<and> ''RC'' \<notin> set (valid_tags [''rc'', ''3.0.0-rc1'', ''RC''])"
proof -
  have h: "''3.0.0-rc1'' \<in> set [''rc'', ''3.0.0-rc1'', ''RC'']" by simp
  have n: "''RC'' \<notin> set (valid_tags [''rc'', ''3.0.0-rc1'', ''RC''])" by code_simp
  from exclusion_is_whole_string [of "''3.0.0-rc1''" "[''rc'', ''3.0.0-rc1'', ''RC'']"] h n
  show ?thesis by blast
qed

text \<open>
  C7. When the fetched list holds a tag that matches the release shape and is not
  excluded, the returned tag is not in the exclusion set, in any letter case.
\<close>

theorem best_tag_not_excluded:
  assumes "t \<in> set tags" and "py_lower t \<notin> exclude" and "semver_match t"
  shows "get_best_tag tags \<notin> exclude \<and> py_lower (get_best_tag tags) \<notin> exclude"
proof -
  from assms have ne: "valid_tags tags \<noteq> []"
    by (auto simp: valid_tags_def filter_empty_conv)
  from get_best_tag_in_valid [OF ne]
  have low: "py_lower (get_best_tag tags) \<notin> exclude"
    by (simp add: valid_tags_def)
  have "py_lower w = w" if "w \<in> exclude" for w
    using that unfolding exclude_def py_lower_def lower_chr_def code_def by auto
  with low show ?thesis by metis
qed

theorem best_tag_not_excluded_witness:
  "''1.0'' \<in> set [''latest'', ''1.0'', ''rc'']
   \<and> py_lower ''1.0'' \<notin> exclude \<and> semver_match ''1.0''
   \<and> get_best_tag [''latest'', ''1.0'', ''rc''] \<notin> exclude"
proof -
  have h1: "''1.0'' \<in> set [''latest'', ''1.0'', ''rc'']" by simp
  have h2: "py_lower ''1.0'' \<notin> exclude" by code_simp
  have h3: "semver_match ''1.0''" by code_simp
  from best_tag_not_excluded [OF h1 h2 h3] h1 h2 h3 show ?thesis by blast
qed

text \<open>
  C8. When the fetched list is not empty and none of its tags is both outside the
  exclusion set and of the release shape, the result is the first fetched tag.
\<close>

theorem best_tag_fallback_first:
  assumes "\<forall>u \<in> set (t # ts). \<not> (py_lower u \<notin> exclude \<and> semver_match u)"
  shows "get_best_tag (t # ts) = t"
proof -
  from assms have "valid_tags (t # ts) = []"
    unfolding valid_tags_def filter_empty_conv by blast
  then show ?thesis by (simp add: get_best_tag_def)
qed

theorem best_tag_fallback_first_witness:
  "\<not> semver_match ''stable'' \<and> py_lower ''latest'' \<in> exclude \<and> \<not> semver_match ''1.2.3.4''
   \<and> get_best_tag [''stable'', ''latest'', ''1.2.3.4''] = ''stable''"
proof -
  have a: "\<not> semver_match ''stable''" by code_simp
  have b: "py_lower ''latest'' \<in> exclude" by code_simp
  have c: "\<not> semver_match ''1.2.3.4''" by code_simp
  have h: "\<forall>u \<in> set [''stable'', ''latest'', ''1.2.3.4'']. \<not> (py_lower u \<notin> exclude \<and> semver_match u)"
    using a b c by simp
  from best_tag_fallback_first [OF h] a b c show ?thesis by blast
qed

text \<open>
  C10. When some tag survives both filters, the returned tag splits the fetched list:
  every surviving tag before it has a strictly smaller version key, every surviving tag
  after it has a smaller or equal key. So among surviving tags of equal, greatest key the
  earliest fetched one is returned. The tags \<^verbatim>\<open>"1.2"\<close>, \<^verbatim>\<open>"1.2-alpha"\<close> and
  \<^verbatim>\<open>"v1.2.0"\<close> all have the key \<open>[1, 2, 0, 0]\<close>.
\<close>

theorem best_tag_earliest_among_equal_keys:
  assumes "valid_tags tags \<noteq> []"
  shows "(\<exists>pre post. tags = pre @ get_best_tag tags # post
      \<and> get_best_tag tags \<in> set (valid_tags tags)
      \<and> (\<forall>u \<in> set (valid_tags pre). version_key u < version_key (get_best_tag tags))
      \<and> (\<forall>u \<in> set (valid_tags post). version_key u \<le> version_key (get_best_tag tags)))
    \<and> version_key ''1.2'' = [1, 2, 0, 0]
    \<and> version_key ''1.2-alpha'' = [1, 2, 0, 0]
    \<and> version_key ''v1.2.0'' = [1, 2, 0, 0]"
proof -
  let ?r = "get_best_tag tags"
  let ?P = "\<lambda>t. py_lower t \<notin> exclude \<and> semver_match t"
  from hd_sort_reverse_split [OF assms, of version_key] obtain pre post where
    split: "valid_tags tags = pre @ ?r # post"
    and pre: "list_all (\<lambda>u. version_key u < version_key ?r) pre"
    and post: "list_all (\<lambda>u. version_key u \<le> version_key ?r) post"
    unfolding get_best_tag_valid [OF assms] by blast
  from split have "filter ?P tags = pre @ ?r # post"
    by (simp add: valid_tags_def)
  from filter_split_at [OF this] obtain us vs where
    "tags = us @ ?r # vs" "filter ?P us = pre" "filter ?P vs = post" by blast
  with pre post get_best_tag_in_valid [OF assms]
  have "\<exists>pre post. tags = pre @ ?r # post
      \<and> ?r \<in> set (valid_tags tags)
      \<and> (\<forall>u \<in> set (valid_tags pre). version_key u < version_key ?r)
      \<and> (\<forall>u \<in> set (valid_tags post). version_key u \<le> version_key ?r)"
    by (intro exI [of _ us] exI [of _ vs]) (simp add: valid_tags_def list_all_iff)
  moreover have "version_key ''1.2'' = [1, 2, 0, 0]" by code_simp
  moreover have "version_key ''1.2-alpha'' = [1, 2, 0, 0]" by code_simp
  moreover have "version_key ''v1.2.0'' = [1, 2, 0, 0]" by code_simp
  ultimately show ?thesis by blast
qed

theorem best_tag_earliest_among_equal_keys_witness:
  "valid_tags [''1.1'', ''1.2-alpha'', ''1.2'', ''v1.2.0''] \<noteq> []
   \<and> get_best_tag [''1.1'', ''1.2-alpha'', ''1.2'', ''v1.2.0''] = ''1.2-alpha''
   \<and> get_best_tag [''1.1'', ''1.2-alpha'', ''1.2'', ''v1.2.0'']
        \<in> set (valid_tags [''1.1'', ''1.2-alpha'', ''1.2'', ''v1.2.0''])"
proof -
  have h: "valid_tags [''1.1'', ''1.2-alpha'', ''1.2'', ''v1.2.0''] \<noteq> []" by code_simp
  have e: "get_best_tag [''1.1'', ''1.2-alpha'', ''1.2'', ''v1.2.0''] = ''1.2-alpha''"
    by code_simp
  from best_tag_earliest_among_equal_keys [OF h] h e show ?thesis by blast
qed

subsection \<open>Timestamps: parsing what \<^verbatim>\<open>isoformat\<close> writes\<close>

lemma digit_range:
  "0 \<le> d \<Longrightarrow> d < 10 \<Longrightarrow>
   d = 0 \<or> d = 1 \<or> d = 2 \<or> d = 3 \<or> d = 4 \<or> d = 5 \<or> d = 6 \<or> d = 7 \<or> d = 8 \<or> d = (9::int)"
  by arith

lemma is_digit_digit_chr: "0 \<le> d \<Longrightarrow> d < 10 \<Longrightarrow> is_digit (digit_chr d)"
  using digit_range [of d] by (auto simp: is_digit_def digit_chr_def code_def)

lemma digit_val_digit_chr: "0 \<le> d \<Longrightarrow> d < 10 \<Longrightarrow> digit_val (digit_chr d) = d"
  using digit_range [of d] by (auto simp: digit_val_def digit_chr_def code_def)

lemma foldl_digits:
  "foldl (\<lambda>a c. 10 * a + digit_val c) acc ys
     = acc * 10 ^ length ys + foldl (\<lambda>a c. 10 * a + digit_val c) 0 ys"
proof -
  define f where "f = (\<lambda>a c. 10 * a + digit_val c)"
  have "foldl f acc ys = acc * 10 ^ length ys + foldl f 0 ys"
  proof (induction ys arbitrary: acc)
    case Nil
    then show ?case by simp
  next
    case (Cons y ys)
    have "foldl f acc (y # ys) = foldl f (f acc y) ys" by simp
    also have "\<dots> = f acc y * 10 ^ length ys + foldl f 0 ys" by (rule Cons.IH)
    finally have l: "foldl f acc (y # ys) = f acc y * 10 ^ length ys + foldl f 0 ys" .
    have "foldl f 0 (y # ys) = foldl f (f 0 y) ys" by simp
    also have "\<dots> = f 0 y * 10 ^ length ys + foldl f 0 ys" by (rule Cons.IH)
    finally have r: "foldl f 0 (y # ys) = f 0 y * 10 ^ length ys + foldl f 0 ys" .
    have "f acc y = acc * 10 + f 0 y" by (simp add: f_def)
    then show ?case unfolding l r by (simp add: algebra_simps)
  qed
  then show ?thesis by (simp add: f_def)
qed

lemma num_append:
  assumes "num xs = Some a" and "num ys = Some b"
  shows "num (xs @ ys) = Some (a * 10 ^ length ys + b)"
proof -
  from assms(1) have x: "list_all is_digit xs" "foldl (\<lambda>a c. 10 * a + digit_val c) 0 xs = a"
    by (simp_all add: num_def split: if_splits)
  from assms(2) have y: "list_all is_digit ys" "foldl (\<lambda>a c. 10 * a + digit_val c) 0 ys = b"
    by (simp_all add: num_def split: if_splits)
  have "foldl (\<lambda>a c. 10 * a + digit_val c) 0 (xs @ ys)
          = foldl (\<lambda>a c. 10 * a + digit_val c) a ys"
    using x(2) by simp
  also have "\<dots> = a * 10 ^ length ys + b"
    using foldl_digits [of a ys] y(2) by simp
  finally show ?thesis
    using x(1) y(1) by (simp add: num_def)
qed

lemma length_pad2 [simp]: "length (pad2 n) = 2"
  by (simp add: pad2_def)

lemma length_pad4 [simp]: "length (pad4 n) = 4"
  by (simp add: pad4_def)

lemma length_pad6 [simp]: "length (pad6 n) = 6"
  by (simp add: pad6_def)

lemma num_pad2: "0 \<le> n \<Longrightarrow> n < 100 \<Longrightarrow> num (pad2 n) = Some n"
proof -
  assume n: "0 \<le> n" "n < 100"
  have a: "0 \<le> n div 10 mod 10" "n div 10 mod 10 < 10" "0 \<le> n mod 10" "n mod 10 < 10"
    by simp_all
  have "n div 10 mod 10 = n div 10" using n by simp
  then have "10 * (n div 10 mod 10) + n mod 10 = n" by simp
  then show ?thesis
    using a by (simp add: num_def pad2_def is_digit_digit_chr digit_val_digit_chr)
qed

lemma num_pad4: "0 \<le> n \<Longrightarrow> n < 10000 \<Longrightarrow> num (pad4 n) = Some n"
proof -
  assume n: "0 \<le> n" "n < 10000"
  have a: "num (pad2 (n div 100)) = Some (n div 100)"
    using n by (intro num_pad2) simp_all
  have b: "num (pad2 (n mod 100)) = Some (n mod 100)"
    by (intro num_pad2) simp_all
  show ?thesis
    unfolding pad4_def using num_append [OF a b] by simp
qed

lemma num_pad6: "0 \<le> n \<Longrightarrow> n < 1000000 \<Longrightarrow> num (pad6 n) = Some n"
proof -
  assume n: "0 \<le> n" "n < 1000000"
  have a: "num (pad2 (n div 10000)) = Some (n div 10000)"
    using n by (intro num_pad2) simp_all
  have b: "num (pad4 (n mod 10000)) = Some (n mod 10000)"
    by (intro num_pad4) simp_all
  show ?thesis
    unfolding pad6_def using num_append [OF a b] by simp
qed

lemma days_in_month_le: "days_in_month y m \<le> 31"
  by (simp add: days_in_month_def)

lemma parse_date_pads:
  assumes "0 \<le> y" "y < 10000" "0 \<le> m" "m < 100" "0 \<le> d" "d < 100"
  shows "parse_date (pad4 y @ ''-'' @ pad2 m @ ''-'' @ pad2 d) = Some (y, m, d)"
  using assms by (simp add: parse_date_def nth_append num_pad4 num_pad2)

lemma num_Nil: "num [] = Some 0"
  by (simp add: num_def)

lemma parse_time_pads:
  assumes "0 \<le> h" "h < 100" "0 \<le> m" "m < 100" "0 \<le> s" "s < 100"
  shows "parse_time (pad2 h @ '':'' @ pad2 m @ '':'' @ pad2 s) = Some (h, m, s, 0)"
  using assms by (simp add: parse_time_def nth_append num_pad2 num_Nil)

lemma parse_time_pads_frac:
  assumes "0 \<le> h" "h < 100" "0 \<le> m" "m < 100" "0 \<le> s" "s < 100" "0 \<le> us" "us < 1000000"
  shows "parse_time (pad2 h @ '':'' @ pad2 m @ '':'' @ pad2 s @ ''.'' @ pad6 us)
           = Some (h, m, s, us)"
  using assms by (simp add: parse_time_def nth_append num_pad2 num_pad6)

lemma fromisoformat_isoformat:
  assumes "valid_datetime t"
  shows "fromisoformat (isoformat t) = Some t"
proof -
  let ?D = "pad4 (year t) @ ''-'' @ pad2 (month t) @ ''-'' @ pad2 (day t)"
  let ?T = "pad2 (hour t) @ '':'' @ pad2 (minute t) @ '':'' @ pad2 (second t)"
  let ?F = "if microsecond t = 0 then [] else ''.'' @ pad6 (microsecond t)"
  from assms have r:
    "0 \<le> year t" "year t < 10000" "0 \<le> month t" "month t < 100"
    "0 \<le> day t" "day t < 100" "0 \<le> hour t" "hour t < 100"
    "0 \<le> minute t" "minute t < 100" "0 \<le> second t" "second t < 100"
    "0 \<le> microsecond t" "microsecond t < 1000000"
    using days_in_month_le [of "year t" "month t"] by (auto simp: valid_datetime_def)
  have iso: "isoformat t = ?D @ CHR ''T'' # (?T @ ?F)"
    by (simp add: isoformat_def)
  have lenD: "length ?D = 10" by simp
  have d: "take 10 (isoformat t) = ?D" unfolding iso using lenD by simp
  have tm: "drop 11 (isoformat t) = ?T @ ?F" unfolding iso using lenD by simp
  have len: "length (isoformat t) \<noteq> 10" unfolding iso using lenD by simp
  have pd: "parse_date ?D = Some (year t, month t, day t)"
    using r by (intro parse_date_pads)
  have pt: "parse_time (?T @ ?F) = Some (hour t, minute t, second t, microsecond t)"
  proof (cases "microsecond t = 0")
    case True
    then show ?thesis using parse_time_pads [of "hour t" "minute t" "second t"] r by simp
  next
    case False
    then show ?thesis
      using parse_time_pads_frac [of "hour t" "minute t" "second t" "microsecond t"] r by simp
  qed
  have rec: "\<lparr>year = year t, month = month t, day = day t, hour = hour t,
               minute = minute t, second = second t, microsecond = microsecond t\<rparr> = t"
    by simp
  show ?thesis
    unfolding fromisoformat_def d tm pd pt using len assms by (simp add: rec)
qed

subsection \<open>Facts about the cache store and the adapters\<close>

lemma get_after_set:
  assumes "resolve key = File p" and "valid_datetime tw"
  shows "set_cached uc resolve tw dir key v
           = Inr (dir(p \<mapsto> JsonText (JDict [(''cached_at'', JStr (isoformat tw)),
                                                 (''data'', v)])))"
    and "get_cached True resolve tr
           (dir(p \<mapsto> JsonText (JDict [(''cached_at'', JStr (isoformat tw)), (''data'', v)])))
           key
         = Inr (if to_micros tr - to_micros tw < timedelta_seconds CACHE_TTL then v else JNull)"
proof -
  show "set_cached uc resolve tw dir key v
           = Inr (dir(p \<mapsto> JsonText (JDict [(''cached_at'', JStr (isoformat tw)),
                                                 (''data'', v)])))"
    using assms(1) by (simp add: set_cached_def)
  have "read_entry tr (File p)
          (dir(p \<mapsto> JsonText (JDict [(''cached_at'', JStr (isoformat tw)), (''data'', v)])))
          = Inr (if to_micros tr - to_micros tw < timedelta_seconds CACHE_TTL then v else JNull)"
    by (simp add: read_entry_def fromisoformat_isoformat [OF assms(2)])
  then show "get_cached True resolve tr
           (dir(p \<mapsto> JsonText (JDict [(''cached_at'', JStr (isoformat tw)), (''data'', v)])))
           key
         = Inr (if to_micros tr - to_micros tw < timedelta_seconds CACHE_TTL then v else JNull)"
    using assms(1) by (simp add: get_cached_def)
qed

lemma from_dict_to_dict: "from_dict (to_dict r) = Inr r"
  by (simp add: from_dict_def to_dict_def field_names_def)

lemma map_err_from_dict: "map_err from_dict (map to_dict rs) = Inr rs"
  by (induction rs) (simp_all add: from_dict_to_dict)

lemma from_cached_to_dicts: "from_cached (JList (map to_dict rs)) = Inr rs"
  by (simp add: from_cached_def map_err_from_dict)

lemma then_do_Inr_iff: "then_do m f = Inr y \<longleftrightarrow> (\<exists>x. m = Inr x \<and> f x = Inr y)"
  by (cases m) simp_all

lemma map_err_length: "map_err f xs = Inr ys \<Longrightarrow> length ys = length xs"
  by (induction xs arbitrary: ys) (auto split: sum.splits)

lemma set_cached_Inr:
  "set_cached uc resolve tw dir key v = Inr dir' \<Longrightarrow>
   \<exists>p. resolve key = File p
     \<and> dir' = dir(p \<mapsto> JsonText (JDict [(''cached_at'', JStr (isoformat tw)), (''data'', v)]))"
  by (auto simp: set_cached_def split: path_status.splits)

lemma py_getitem_Inr:
  "py_getitem x k = Inr v \<Longrightarrow> truthy x \<and> py_contains k x = Inr True"
proof (cases x)
  case (JDict d)
  assume "py_getitem x k = Inr v"
  with JDict have m: "map_of d k = Some v" by (simp split: option.splits)
  then have "k \<in> fst ` set d" by (metis map_of_eq_None_iff option.distinct(1))
  moreover from m have "d \<noteq> []" by auto
  ultimately show ?thesis using JDict by simp
qed simp_all

lemma world_cache_eq:
  "(w::world)\<lparr>calls := c, cache := d\<rparr> = w\<lparr>calls := c\<rparr> \<Longrightarrow> d = cache w"
  by (drule arg_cong [where f = cache]) simp

lemma docker_fetched:
  assumes "search_docker_hub uc resolve net now_r now_w term limit w = Inr (rs, w1)"
    and "calls w1 \<noteq> calls w"
  shows "calls w1 = calls w @ [docker_url term limit]
    \<and> (rs = [] \<and> cache w1 = cache w
          \<and> (\<forall>v. py_getitem (net (length (calls w)) (docker_url term limit)) ''results''
                   \<noteq> Inr v)
        \<or> (\<exists>rsj items.
             py_getitem (net (length (calls w)) (docker_url term limit)) ''results'' = Inr rsj
             \<and> py_iter rsj = Inr items
             \<and> map_err docker_item items = Inr rs
             \<and> set_cached uc resolve now_w (cache w) (docker_cache_key term limit)
                  (JList (map to_dict rs)) = Inr (cache w1)))"
  using assms
  by (auto simp: search_docker_hub_def Let_def http_get_def then_do_Inr_iff
           dest: py_getitem_Inr world_cache_eq split: if_splits)

lemma quay_fetched:
  assumes "search_quay uc resolve repr net now_r now_w term limit w = Inr (rs, w1)"
    and "calls w1 \<noteq> calls w"
  shows "calls w1 = calls w @ [quay_url term]
    \<and> (rs = [] \<and> cache w1 = cache w
        \<or> (\<exists>rsj page items.
             py_getitem (net (length (calls w)) (quay_url term)) ''results'' = Inr rsj
             \<and> py_slice_to limit rsj = Inr page
             \<and> py_iter page = Inr items
             \<and> map_err (quay_item repr) items = Inr rs
             \<and> set_cached uc resolve now_w (cache w) (quay_cache_key term limit)
                  (JList (map to_dict rs)) = Inr (cache w1)))"
  using assms
  by (auto simp: search_quay_def Let_def http_get_def then_do_Inr_iff
           split: if_splits)

lemma docker_hit:
  assumes "get_cached uc resolve now_r (cache w) (docker_cache_key term limit)
             = Inr (JList (map to_dict rs))"
    and "rs \<noteq> []"
  shows "search_docker_hub uc resolve net now_r now_w term limit w = Inr (rs, w)"
  using assms by (simp add: search_docker_hub_def Let_def from_cached_to_dicts)

lemma quay_hit:
  assumes "get_cached uc resolve now_r (cache w) (quay_cache_key term limit)
             = Inr (JList (map to_dict rs))"
    and "rs \<noteq> []"
  shows "search_quay uc resolve repr net now_r now_w term limit w = Inr (rs, w)"
  using assms by (simp add: search_quay_def Let_def from_cached_to_dicts)


lemma slice_to_length: "0 \<le> n \<Longrightarrow> int (length (slice_to n xs)) \<le> n"
  by (simp add: slice_to_def)

lemma py_slice_iter_length:
  "py_slice_to n x = Inr page \<Longrightarrow> py_iter page = Inr items \<Longrightarrow> 0 \<le> n \<Longrightarrow>
   int (length items) \<le> n"
  by (cases x) (auto simp: slice_to_def)

subsection \<open>Evaluation of the examples\<close>

lemma ex_valid: "valid_datetime ex_midnight"
  by code_simp

lemma ex_iso: "isoformat ex_midnight = ''2024-01-01T00:00:00''"
  by code_simp


lemma ex_ages:
  "to_micros ex_one_am - to_micros ex_midnight = 3600000000"
  "to_micros ex_before_one - to_micros ex_midnight = 3599999999"
  by code_simp+

lemma ex_ttl: "timedelta_seconds CACHE_TTL = 3600000000"
  by (simp add: timedelta_seconds_def CACHE_TTL_def)

lemma ex_quote: "quote ''nginx'' = ''nginx''"
  by code_simp

lemma ex_str_int: "str_int 1 = ''1''" "str_int (- 1) = ''-1''"
  by code_simp+


lemma ex_paths:
  "posix_flat ''k'' = File ''k.json''"
  "posix_flat ''a/b'' = NoSuchDir"
  "posix_flat [CHR ''k'', CHR 0x00] = NulByte"
  "posix_flat ex_long_key = NameTooLong"
  "posix_flat ''dockerhub_nginx_1'' = File ''dockerhub_nginx_1.json''"
  "posix_flat ''quay_nginx_1'' = File ''quay_nginx_1.json''"
  "posix_flat ''quay_nginx_-1'' = File ''quay_nginx_-1.json''"
  by code_simp+

lemma ex_docker_items: "map_err docker_item ex_docker_records = Inr ex_docker_results"
  by (simp add: ex_docker_records_def ex_docker_results_def docker_item_def or_empty_def
        slice_to_def ex_image_def)

lemma ex_first_docker_search:
  "search_docker_hub True posix_flat ex_docker_net ex_midnight ex_midnight ''nginx'' 1 ex_fresh
   = Inr (ex_docker_results, ex_after_docker)"
  by (simp add: search_docker_hub_def docker_cache_key_def docker_url_def ex_quote ex_str_int
        get_cached_def ex_paths ex_fresh_def http_get_def ex_docker_net_def ex_docker_items
        set_cached_def ex_iso ex_after_docker_def ex_entry_def ex_docker_url_def)

lemma ex_quay_search:
  "search_quay True posix_flat ex_repr ex_quay_net ex_midnight ex_midnight ''nginx'' 1 ex_fresh
   = Inr ([ex_image ''quay.io'' ''quay.io/bitnami/nginx'' 0],
          \<lparr>cache = [''quay_nginx_1.json'' \<mapsto>
                      ex_entry [ex_image ''quay.io'' ''quay.io/bitnami/nginx'' 0]],
           calls = [ex_quay_url]\<rparr>)"
  by (simp add: search_quay_def quay_cache_key_def quay_url_def ex_quote ex_str_int
        get_cached_def ex_paths ex_fresh_def http_get_def ex_quay_net_def quay_item_def
        or_empty_def slice_to_def set_cached_def ex_iso ex_entry_def ex_quay_url_def
        ex_image_def)

lemma ex_quay_search_negative:
  "search_quay True posix_flat ex_repr ex_quay_net ex_midnight ex_midnight ''nginx'' (- 1)
     ex_fresh
   = Inr ([ex_image ''quay.io'' ''quay.io/bitnami/nginx'' 0],
          \<lparr>cache = [''quay_nginx_-1.json'' \<mapsto>
                      ex_entry [ex_image ''quay.io'' ''quay.io/bitnami/nginx'' 0]],
           calls = [ex_quay_url]\<rparr>)"
  by (simp add: search_quay_def quay_cache_key_def quay_url_def ex_quote ex_str_int
        get_cached_def ex_paths ex_fresh_def http_get_def ex_quay_net_def quay_item_def
        or_empty_def slice_to_def set_cached_def ex_iso ex_entry_def ex_quay_url_def
        ex_image_def)

subsection \<open>Claims about the cache store\<close>

text \<open>
  C1. The claim says that \<^verbatim>\<open>_get_cached\<close> never raises, whatever the cache file
  holds. The handler catches \<^verbatim>\<open>JSONDecodeError\<close> and \<^verbatim>\<open>KeyError\<close> only: an entry
  whose \<^verbatim>\<open>cached_at\<close> is not a timestamp raises \<^verbatim>\<open>ValueError\<close>, a file holding a
  JSON list raises \<^verbatim>\<open>AttributeError\<close>, a numeric \<^verbatim>\<open>cached_at\<close> raises
  \<^verbatim>\<open>TypeError\<close>. Text that is not JSON and an absent file are misses.
\<close>

theorem get_cached_raises_on_malformed_entry:
  "get_cached True posix_flat ex_midnight
     [''k.json'' \<mapsto> JsonText (JDict [(''cached_at'', JStr ''yesterday''), (''data'', JInt 1)])]
     ''k''
     = Inl ValueError
   \<and> get_cached True posix_flat ex_midnight [''k.json'' \<mapsto> JsonText (JList [JInt 1])] ''k''
     = Inl AttributeError
   \<and> get_cached True posix_flat ex_midnight
       [''k.json'' \<mapsto> JsonText (JDict [(''cached_at'', JInt 0), (''data'', JInt 1)])] ''k''
     = Inl TypeError
   \<and> get_cached True posix_flat ex_midnight [''k.json'' \<mapsto> NotJson] ''k'' = Inr JNull
   \<and> get_cached True posix_flat ex_midnight Map.empty ''k'' = Inr JNull"
proof -
  have "fromisoformat ''yesterday'' = None" by code_simp
  then show ?thesis
    by (simp add: get_cached_def ex_paths read_entry_def)
qed

text \<open>
  C2. With \<^verbatim>\<open>use_cache=False\<close> every read is a miss. The write does not look at the
  flag: it stores the entry as it does with caching enabled, so the cache directory
  changes.
\<close>

theorem set_cached_ignores_use_cache:
  "get_cached False resolve now dir key = Inr JNull
   \<and> set_cached False resolve now dir key v = set_cached True resolve now dir key v
   \<and> set_cached False posix_flat ex_midnight Map.empty ''k'' (JInt 1)
     = Inr [''k.json'' \<mapsto> JsonText (JDict [(''cached_at'', JStr ''2024-01-01T00:00:00''),
                                               (''data'', JInt 1)])]"
  by (simp add: get_cached_def set_cached_def ex_iso ex_paths)




subsection \<open>Claims about the adapters\<close>

text \<open>
  C4, as stated, fails when the backend is down: \<^verbatim>\<open>_http_get\<close> returns \<^verbatim>\<open>None\<close>, the
  search returns an empty list without writing the cache, and the second identical search
  issues a second request.
\<close>

theorem two_searches_two_calls_counterexample:
  "search_docker_hub True posix_flat ex_net_down ex_midnight ex_midnight ''nginx'' 1 ex_fresh
     = Inr ([], \<lparr>cache = Map.empty, calls = [ex_docker_url]\<rparr>)
   \<and> search_docker_hub True posix_flat ex_net_down ex_before_one ex_before_one ''nginx'' 1
       \<lparr>cache = Map.empty, calls = [ex_docker_url]\<rparr>
     = Inr ([], \<lparr>cache = Map.empty, calls = [ex_docker_url, ex_docker_url]\<rparr>)"
  by (simp add: search_docker_hub_def docker_cache_key_def docker_url_def ex_quote ex_str_int get_cached_def
        ex_paths ex_fresh_def http_get_def ex_net_down_def ex_docker_url_def)

text \<open>
  C4, amended. With caching enabled, when a search fetched from the backend, returned a
  list that is not empty and wrote it at the clock reading \<open>now_w\<close>, it issued one
  request; and a second search for the same term and limit whose cache read happens less
  than 3600 seconds after \<open>now_w\<close> returns the same list from the cache and issues no
  request, whatever the backend would answer. This holds for both adapters.
\<close>

theorem second_search_served_from_cache:
  assumes "valid_datetime now_w"
    and "to_micros now_r2 - to_micros now_w < timedelta_seconds CACHE_TTL"
    and "rs \<noteq> []" and "calls w1 \<noteq> calls w"
  shows "(search_docker_hub True resolve net now_r now_w term limit w = Inr (rs, w1) \<longrightarrow>
            length (calls w1) = length (calls w) + 1
            \<and> search_docker_hub True resolve net2 now_r2 now_w2 term limit w1 = Inr (rs, w1))
       \<and> (search_quay True resolve repr net now_r now_w term limit w = Inr (rs, w1) \<longrightarrow>
            length (calls w1) = length (calls w) + 1
            \<and> search_quay True resolve repr net2 now_r2 now_w2 term limit w1 = Inr (rs, w1))"
proof (intro conjI impI)
  assume s: "search_docker_hub True resolve net now_r now_w term limit w = Inr (rs, w1)"
  let ?key = "docker_cache_key term limit"
  from docker_fetched [OF s assms(4)] assms(3)
  have c: "length (calls w1) = length (calls w) + 1"
    and w: "set_cached True resolve now_w (cache w) ?key (JList (map to_dict rs)) = Inr (cache w1)"
    by auto
  from set_cached_Inr [OF w] obtain p where k: "resolve ?key = File p"
    and d: "cache w1 = (cache w)(p \<mapsto> JsonText (JDict [(''cached_at'', JStr (isoformat now_w)),
                                                        (''data'', JList (map to_dict rs))]))"
    by blast
  have "get_cached True resolve now_r2 (cache w1) ?key = Inr (JList (map to_dict rs))"
    unfolding d using get_after_set(2) [where resolve = resolve and key = ?key, OF k assms(1)] assms(2)
    by simp
  from docker_hit [OF this assms(3)]
  show "search_docker_hub True resolve net2 now_r2 now_w2 term limit w1 = Inr (rs, w1)" .
  from c show "length (calls w1) = length (calls w) + 1" .
next
  assume s: "search_quay True resolve repr net now_r now_w term limit w = Inr (rs, w1)"
  let ?key = "quay_cache_key term limit"
  from quay_fetched [OF s assms(4)] assms(3)
  have c: "length (calls w1) = length (calls w) + 1"
    and w: "set_cached True resolve now_w (cache w) ?key (JList (map to_dict rs)) = Inr (cache w1)"
    by auto
  from set_cached_Inr [OF w] obtain p where k: "resolve ?key = File p"
    and d: "cache w1 = (cache w)(p \<mapsto> JsonText (JDict [(''cached_at'', JStr (isoformat now_w)),
                                                        (''data'', JList (map to_dict rs))]))"
    by blast
  have "get_cached True resolve now_r2 (cache w1) ?key = Inr (JList (map to_dict rs))"
    unfolding d using get_after_set(2) [where resolve = resolve and key = ?key, OF k assms(1)] assms(2)
    by simp
  from quay_hit [OF this assms(3)]
  show "search_quay True resolve repr net2 now_r2 now_w2 term limit w1 = Inr (rs, w1)" .
  from c show "length (calls w1) = length (calls w) + 1" .
qed

theorem second_search_served_from_cache_witness:
  "valid_datetime ex_midnight
   \<and> to_micros ex_before_one - to_micros ex_midnight < timedelta_seconds CACHE_TTL
   \<and> ex_docker_results \<noteq> [] \<and> calls ex_after_docker \<noteq> calls ex_fresh
   \<and> search_docker_hub True posix_flat ex_docker_net ex_midnight ex_midnight ''nginx'' 1 ex_fresh
       = Inr (ex_docker_results, ex_after_docker)
   \<and> search_docker_hub True posix_flat ex_net_down ex_before_one ex_before_one ''nginx'' 1
         ex_after_docker
       = Inr (ex_docker_results, ex_after_docker)"
proof -
  have a: "to_micros ex_before_one - to_micros ex_midnight < timedelta_seconds CACHE_TTL"
    by (simp add: ex_ages ex_ttl)
  have b: "ex_docker_results \<noteq> []" by (simp add: ex_docker_results_def)
  have c: "calls ex_after_docker \<noteq> calls ex_fresh"
    by (simp add: ex_after_docker_def ex_fresh_def)
  from second_search_served_from_cache [OF ex_valid a b c,
      of posix_flat ex_docker_net ex_midnight "''nginx''" 1 ex_net_down ex_before_one]
    ex_first_docker_search ex_valid a b c
  show ?thesis by blast
qed

text \<open>
  C9, as stated, fails for Docker Hub: the limit only goes into the URL as
  \<^verbatim>\<open>page_size\<close>, and the adapter returns one entry for every record of the answer, here
  two for the limit 1. For Quay it fails for a negative limit, where \<^verbatim>\<open>[:limit]\<close> drops
  records from the end: one entry for the limit -1.
\<close>

theorem docker_results_above_limit_counterexample:
  "search_docker_hub True posix_flat ex_docker_net ex_midnight ex_midnight ''nginx'' 1 ex_fresh
     = Inr (ex_docker_results, ex_after_docker)
   \<and> \<not> int (length ex_docker_results) \<le> 1
   \<and> search_quay True posix_flat ex_repr ex_quay_net ex_midnight ex_midnight ''nginx'' (- 1) ex_fresh
     = Inr ([ex_image ''quay.io'' ''quay.io/bitnami/nginx'' 0],
            \<lparr>cache = [''quay_nginx_-1.json'' \<mapsto>
                        ex_entry [ex_image ''quay.io'' ''quay.io/bitnami/nginx'' 0]],
             calls = [ex_quay_url]\<rparr>)
   \<and> \<not> int (length [ex_image ''quay.io'' ''quay.io/bitnami/nginx'' 0]) \<le> - 1"
  using ex_first_docker_search ex_quay_search_negative
  by (simp add: ex_docker_results_def)

text \<open>
  C9, amended. When \<^verbatim>\<open>search_quay\<close> fetches from the backend with a limit that is not
  negative and returns, it returns at most \<open>limit\<close> entries. When
  \<^verbatim>\<open>search_docker_hub\<close> fetches from the backend and returns, and the answer's
  \<^verbatim>\<open>results\<close> is a list, it returns exactly one entry for each record of that list,
  whatever the limit is.
\<close>

theorem fetched_result_sizes:
  assumes "calls w1 \<noteq> calls w"
  shows "(search_quay uc resolve repr net now_r now_w term limit w = Inr (rs, w1) \<and> 0 \<le> limit
            \<longrightarrow> int (length rs) \<le> limit)
       \<and> (search_docker_hub uc resolve net now_r now_w term limit w = Inr (rs, w1)
           \<and> py_getitem (net (length (calls w)) (docker_url term limit)) ''results''
               = Inr (JList items)
            \<longrightarrow> length rs = length items)"
proof (intro conjI impI)
  assume a: "search_quay uc resolve repr net now_r now_w term limit w = Inr (rs, w1) \<and> 0 \<le> limit"
  from quay_fetched [OF conjunct1 [OF a] assms]
  consider "rs = []"
    | rsj page its where "py_slice_to limit rsj = Inr page" "py_iter page = Inr its"
        "map_err (quay_item repr) its = Inr rs"
    by blast
  then show "int (length rs) \<le> limit"
  proof cases
    case 1
    with a show ?thesis by simp
  next
    case 2
    from py_slice_iter_length [OF 2(1) 2(2)] a map_err_length [OF 2(3)]
    show ?thesis by simp
  qed
next
  assume a: "search_docker_hub uc resolve net now_r now_w term limit w = Inr (rs, w1)
           \<and> py_getitem (net (length (calls w)) (docker_url term limit)) ''results''
               = Inr (JList items)"
  from docker_fetched [OF conjunct1 [OF a] assms] conjunct2 [OF a] py_getitem_Inr
  have "map_err docker_item items = Inr rs" by auto
  from map_err_length [OF this] show "length rs = length items" .
qed

theorem fetched_result_sizes_witness:
  "calls \<lparr>cache = [''quay_nginx_1.json'' \<mapsto> ex_entry [ex_image ''quay.io'' ''quay.io/bitnami/nginx'' 0]],
          calls = [ex_quay_url]\<rparr> \<noteq> calls ex_fresh
   \<and> search_quay True posix_flat ex_repr ex_quay_net ex_midnight ex_midnight ''nginx'' 1 ex_fresh
     = Inr ([ex_image ''quay.io'' ''quay.io/bitnami/nginx'' 0],
            \<lparr>cache = [''quay_nginx_1.json'' \<mapsto>
                        ex_entry [ex_image ''quay.io'' ''quay.io/bitnami/nginx'' 0]],
             calls = [ex_quay_url]\<rparr>)
   \<and> (0::int) \<le> 1
   \<and> int (length [ex_image ''quay.io'' ''quay.io/bitnami/nginx'' 0]) \<le> 1"
proof -
  have c: "calls \<lparr>cache = [''quay_nginx_1.json'' \<mapsto>
                        ex_entry [ex_image ''quay.io'' ''quay.io/bitnami/nginx'' 0]],
                  calls = [ex_quay_url]\<rparr> \<noteq> calls ex_fresh"
    by (simp add: ex_fresh_def)
  from fetched_result_sizes [OF c, of True posix_flat ex_repr ex_quay_net ex_midnight
      ex_midnight "''nginx''" 1 "[ex_image ''quay.io'' ''quay.io/bitnami/nginx'' 0]"]
    ex_quay_search c
  show ?thesis by simp
qed

end
